theory Spec2Isabelle
  imports Complex_Main "HOL-Library.Multiset" "HOL-Library.Word"
begin

section \<open>Data model (pkg/minirag/types.go)\<close>

text \<open>
  A Go string is modelled as the sequence of its code points (a valid UTF-8 string);
  \<open>len\<close> of a string counts its UTF-8 bytes. The Go \<open>int\<close> is an unbounded integer
  (no value here comes near 64 bits).

  The element type of the stored vectors is a type parameter of the records. The similarity
  search compares and ranks \<open>float32\<close> values: there a value is its IEEE-754 bit pattern
  (\<open>float32\<close> below), the comparisons are defined on the patterns, and the rounded
  arithmetic of the processor is a parameter. The embedders only scale a vector: there the
  values are real numbers with exact arithmetic (\<open>vector\<close>), and the batch pipeline moves
  such vectors around without computing on them.
\<close>

type_synonym rune = nat
type_synonym gostring = "rune list"
type_synonym vector = "real list"

text \<open>The number of bytes of a code point in UTF-8, and \<open>len\<close> of a string.\<close>

definition rune_len :: "rune \<Rightarrow> nat" where
  "rune_len r = (if r < 0x80 then 1 else if r < 0x800 then 2 else if r < 0x10000 then 3 else 4)"

definition byte_len :: "gostring \<Rightarrow> nat" where
  "byte_len s = sum_list (map rune_len s)"

text \<open>A string literal of the source, given by its ASCII characters.\<close>

definition str :: "string \<Rightarrow> gostring" where
  "str s = map of_char s"

record Chunk =
  Path :: gostring
  Content :: gostring
  Heading :: gostring
  Offset :: int

record 'f EmbeddingData =
  data_Chunks :: "Chunk list"
  data_Embeddings :: "'f list list"
  data_ModelInfo :: gostring
  data_Dimension :: int

record 'f VectorIndex =
  Chunks :: "Chunk list"
  Embeddings :: "'f list list"
  Dimension :: int

text \<open>Run-time panics of the Go code are values of the model.\<close>

datatype go_panic = IndexOutOfRange | DivideByZero | NegativeLen

section \<open>float32 values\<close>

text \<open>
  A \<open>float32\<close> is its IEEE-754 binary32 bit pattern: bit 31 is the sign, the other 31
  bits (exponent and fraction) are the magnitude. A pattern whose magnitude lies above that
  of infinity, \<open>0x7F800000\<close>, is a NaN. Values that are not NaN are ordered like
  sign-magnitude integers, so that \<open>+0\<close> and \<open>-0\<close> are equal; every comparison with a
  NaN is false. These are the Go operators \<open>==\<close>, \<open>>=\<close> and \<open>>\<close>. The zero value of
  a \<open>float32\<close> variable and the literal \<open>0\<close> are the pattern \<open>0\<close>.
\<close>

type_synonym float32 = "32 word"

definition f32_magnitude :: "float32 \<Rightarrow> nat" where
  "f32_magnitude w = unat w mod 2 ^ 31"

definition f32_negative :: "float32 \<Rightarrow> bool" where
  "f32_negative w \<longleftrightarrow> unat w \<ge> 2 ^ 31"

definition f32_isNaN :: "float32 \<Rightarrow> bool" where
  "f32_isNaN w \<longleftrightarrow> f32_magnitude w > 0x7F800000"

definition f32_key :: "float32 \<Rightarrow> int" where
  "f32_key w = (if f32_negative w then - int (f32_magnitude w) else int (f32_magnitude w))"

definition f32_eq :: "float32 \<Rightarrow> float32 \<Rightarrow> bool" where
  "f32_eq a b \<longleftrightarrow> \<not> f32_isNaN a \<and> \<not> f32_isNaN b \<and> f32_key a = f32_key b"

definition f32_ge :: "float32 \<Rightarrow> float32 \<Rightarrow> bool" where
  "f32_ge a b \<longleftrightarrow> \<not> f32_isNaN a \<and> \<not> f32_isNaN b \<and> f32_key a \<ge> f32_key b"

definition f32_gt :: "float32 \<Rightarrow> float32 \<Rightarrow> bool" where
  "f32_gt a b \<longleftrightarrow> \<not> f32_isNaN a \<and> \<not> f32_isNaN b \<and> f32_key a > f32_key b"

text \<open>
  The rounded arithmetic that \<open>CosineSimilarity\<close> uses is a parameter, and nothing is
  assumed of it: \<open>muladd32 acc x y\<close> is \<open>acc + x * y\<close> as the compiled code evaluates
  it (Go may fuse the two operations into one rounding), \<open>mul32\<close> and \<open>div32\<close> are
  the rounded product and quotient, and \<open>sqrt32 x\<close> is
  \<open>float32(math.Sqrt(float64(x)))\<close>.
\<close>

record float32_arith =
  muladd32 :: "float32 \<Rightarrow> float32 \<Rightarrow> float32 \<Rightarrow> float32"
  mul32 :: "float32 \<Rightarrow> float32 \<Rightarrow> float32"
  div32 :: "float32 \<Rightarrow> float32 \<Rightarrow> float32"
  sqrt32 :: "float32 \<Rightarrow> float32"

record SearchResult =
  res_Chunk :: Chunk
  Score :: float32

section \<open>Similarity search (pkg/minirag/search.go)\<close>

text \<open>
  The loop of \<open>CosineSimilarity\<close> ranges over the indices of \<open>a\<close> and reads \<open>b[i]\<close>;
  reading past the end of \<open>b\<close> would panic. The accumulator is
  \<open>(dotProduct, normA, normB)\<close>.
\<close>

fun cos_loop :: "float32_arith \<Rightarrow> float32 list \<Rightarrow> float32 list \<Rightarrow> float32 \<times> float32 \<times> float32
    \<Rightarrow> go_panic + float32 \<times> float32 \<times> float32" where
  "cos_loop fl [] b acc = Inr acc"
| "cos_loop fl (x # a) [] acc = Inl IndexOutOfRange"
| "cos_loop fl (x # a) (y # b) (dotProduct, normA, normB) =
     cos_loop fl a b
       (muladd32 fl dotProduct x y, muladd32 fl normA x x, muladd32 fl normB y y)"

definition CosineSimilarity ::
    "float32_arith \<Rightarrow> float32 list \<Rightarrow> float32 list \<Rightarrow> go_panic + float32" where
  "CosineSimilarity fl a b =
     (if length a \<noteq> length b then Inr 0
      else case cos_loop fl a b (0, 0, 0) of
             Inl p \<Rightarrow> Inl p
           | Inr (dotProduct, normA, normB) \<Rightarrow>
               if f32_eq normA 0 \<or> f32_eq normB 0 then Inr 0
               else Inr (div32 fl dotProduct (mul32 fl (sqrt32 fl normA) (sqrt32 fl normB))))"

text \<open>
  \<open>sort.Slice\<close> of the Go library sorts by the given \<open>less\<close> and does not promise the
  order of elements that compare equal. It is modelled by an insertion sort; the theorems
  below use only that the result is a permutation of the input ordered by \<open>less\<close>.
\<close>

fun insert_by :: "('a \<Rightarrow> 'a \<Rightarrow> bool) \<Rightarrow> 'a \<Rightarrow> 'a list \<Rightarrow> 'a list" where
  "insert_by lt x [] = [x]"
| "insert_by lt x (y # ys) = (if lt y x then y # insert_by lt x ys else x # y # ys)"

definition sort_Slice :: "('a \<Rightarrow> 'a \<Rightarrow> bool) \<Rightarrow> 'a list \<Rightarrow> 'a list" where
  "sort_Slice lt xs = foldr (insert_by lt) xs []"

text \<open>
  The scan of \<open>Search\<close>: \<open>i\<close> ranges over \<open>index.Chunks\<close> and reads
  \<open>index.Embeddings[i]\<close>, which panics when there are fewer embeddings than chunks.
\<close>

fun search_loop :: "float32_arith \<Rightarrow> Chunk list \<Rightarrow> float32 list list \<Rightarrow> float32 list \<Rightarrow> float32
    \<Rightarrow> SearchResult list \<Rightarrow> go_panic + SearchResult list" where
  "search_loop fl [] es q threshold results = Inr results"
| "search_loop fl (c # cs) [] q threshold results = Inl IndexOutOfRange"
| "search_loop fl (c # cs) (e # es) q threshold results =
     (case CosineSimilarity fl q e of
        Inl p \<Rightarrow> Inl p
      | Inr score \<Rightarrow>
          search_loop fl cs es q threshold
            (if f32_ge score threshold then results @ [\<lparr>res_Chunk = c, Score = score\<rparr>]
             else results))"

definition Search :: "float32_arith \<Rightarrow> float32 VectorIndex \<Rightarrow> float32 list \<Rightarrow> int \<Rightarrow> float32
    \<Rightarrow> go_panic + SearchResult list" where
  "Search fl index queryEmbedding topK threshold =
     (if int (length queryEmbedding) \<noteq> Dimension index then Inr []
      else case search_loop fl (Chunks index) (Embeddings index) queryEmbedding threshold [] of
             Inl p \<Rightarrow> Inl p
           | Inr found \<Rightarrow>
               (let results = sort_Slice (\<lambda>ri rj. f32_gt (Score ri) (Score rj)) found
                in if topK > 0 \<and> topK < int (length results)
                   then Inr (take (nat topK) results) else Inr results))"

definition LoadIndex :: "'f EmbeddingData \<Rightarrow> 'f VectorIndex" where
  "LoadIndex data =
     \<lparr>Chunks = data_Chunks data, Embeddings = data_Embeddings data,
      Dimension = data_Dimension data\<rparr>"

text \<open>
  The entries of an index that match a query: every chunk paired with the score that
  \<open>CosineSimilarity\<close> returns for its vector, kept when the score is at least the
  threshold, in index order.
\<close>

definition matches ::
    "float32_arith \<Rightarrow> float32 VectorIndex \<Rightarrow> float32 list \<Rightarrow> float32 \<Rightarrow> SearchResult list" where
  "matches fl index q threshold =
     List.map_filter
       (\<lambda>(c, e). case CosineSimilarity fl q e of
                   Inl p \<Rightarrow> None
                 | Inr score \<Rightarrow>
                     if f32_ge score threshold then Some \<lparr>res_Chunk = c, Score = score\<rparr>
                     else None)
       (zip (Chunks index) (Embeddings index))"

text \<open>
  The index loading of the search command (cmd/minirag/main.go): the embedded bytes are
  decoded by the gob library, whose outcome is the argument (an error, or the decoded
  record); a decoding error ends the process with exit code 1, anything decoded is handed
  to \<open>LoadIndex\<close>.
\<close>

definition main_load_index :: "gostring + 'f EmbeddingData \<Rightarrow> gostring + 'f VectorIndex" where
  "main_load_index decoded =
     (case decoded of
        Inl err \<Rightarrow> Inl (str ''Error loading index: '' @ err)
      | Inr embData \<Rightarrow> Inr (LoadIndex embData))"

section \<open>Embedders (pkg/embedder)\<close>

text \<open>The Euclidean norm of a vector of reals.\<close>

definition euclid_norm :: "vector \<Rightarrow> real" where
  "euclid_norm a = sqrt (\<Sum>x \<leftarrow> a. x * x)"

definition l2normalize :: "vector \<Rightarrow> vector" where
  "l2normalize v =
     (let sum = (\<Sum>x \<leftarrow> v. x * x)
      in if sum = 0 then v
         else (let inv = 1 / sqrt sum in map (\<lambda>x. x * inv) v))"

text \<open>
  \<open>OpenAIEmbedder.Embed\<close>. The remote call \<open>client.CreateEmbeddings\<close> is a parameter:
  it answers with an error message or with the list \<open>resp.Data\<close> of embeddings.
\<close>

definition OpenAIEmbedder_Embed :: "(gostring \<Rightarrow> gostring + vector list) \<Rightarrow> gostring \<Rightarrow> gostring + vector" where
  "OpenAIEmbedder_Embed CreateEmbeddings text =
     (if byte_len text = 0 then Inl (str ''cannot embed empty text'')
      else case CreateEmbeddings text of
             Inl err \<Rightarrow> Inl (str ''OpenAI API error: '' @ err)
           | Inr [] \<Rightarrow> Inl (str ''no embedding data returned from API'')
           | Inr (v64 # _) \<Rightarrow> Inr (l2normalize v64))"

text \<open>
  \<open>SimpleEmbedder.Embed\<close>. \<open>range text\<close> yields each code point with the byte index
  \<open>i\<close> at which it starts; \<open>i % e.dim\<close> panics when \<open>e.dim\<close> is zero and
  \<open>make\<close> panics on a negative length.
\<close>

fun hash_loop :: "nat \<Rightarrow> gostring \<Rightarrow> nat \<Rightarrow> vector \<Rightarrow> go_panic + vector" where
  "hash_loop edim [] i vec = Inr vec"
| "hash_loop edim (char # rest) i vec =
     (if edim = 0 then Inl DivideByZero
      else (let idx = i mod edim
            in hash_loop edim rest (i + rune_len char) (vec[idx := vec ! idx + real char / 1000])))"

definition SimpleEmbedder_Embed :: "int \<Rightarrow> gostring \<Rightarrow> go_panic + vector" where
  "SimpleEmbedder_Embed edim text =
     (if edim < 0 then Inl NegativeLen
      else case hash_loop (nat edim) text 0 (replicate (nat edim) 0) of
             Inl p \<Rightarrow> Inl p
           | Inr vec \<Rightarrow>
               (let norm = (\<Sum>v \<leftarrow> vec. v * v)
                in if norm > 0 then Inr (map (\<lambda>v. v * (1 / norm)) vec) else Inr vec))"

section \<open>Chunking (pkg/loader/loader.go)\<close>

text \<open>\<open>unicode.IsSpace\<close>, \<open>strings.TrimSpace\<close>, \<open>strings.TrimLeft\<close>, \<open>strings.HasPrefix\<close>.\<close>

definition IsSpace :: "rune \<Rightarrow> bool" where
  "IsSpace r \<longleftrightarrow>
     r \<in> {0x09, 0x0A, 0x0B, 0x0C, 0x0D, 0x20, 0x85, 0xA0, 0x1680, 0x2028, 0x2029, 0x202F,
          0x205F, 0x3000} \<or> (0x2000 \<le> r \<and> r \<le> 0x200A)"

definition TrimSpace :: "gostring \<Rightarrow> gostring" where
  "TrimSpace s = rev (dropWhile IsSpace (rev (dropWhile IsSpace s)))"

definition TrimLeft :: "gostring \<Rightarrow> gostring \<Rightarrow> gostring" where
  "TrimLeft s cutset = dropWhile (\<lambda>r. r \<in> set cutset) s"

definition HasPrefix :: "gostring \<Rightarrow> gostring \<Rightarrow> bool" where
  "HasPrefix s pre \<longleftrightarrow> take (length pre) s = pre"

text \<open>
  \<open>bufio.Scanner\<close> with the default split function \<open>ScanLines\<close>: the input is cut at
  every newline, a final piece without a newline is a line when it is not empty, and a
  carriage return that ends a line is dropped. A line that does not fit the scanner's
  buffer of \<open>MaxScanTokenSize\<close> bytes ends the scan (\<open>Scan\<close> returns false with
  \<open>ErrTooLong\<close>, which \<open>ChunkDocument\<close> never reads).
\<close>

fun raw_lines :: "gostring \<Rightarrow> gostring list" where
  "raw_lines [] = []"
| "raw_lines (r # rs) =
     (if r = 0x0A then [] # raw_lines rs
      else case raw_lines rs of [] \<Rightarrow> [[r]] | l # ls \<Rightarrow> (r # l) # ls)"

definition MaxScanTokenSize :: nat where
  "MaxScanTokenSize = 64 * 1024"

definition dropCR :: "gostring \<Rightarrow> gostring" where
  "dropCR data = (if data \<noteq> [] \<and> last data = 0x0D then butlast data else data)"

definition scanner_lines :: "gostring \<Rightarrow> gostring list" where
  "scanner_lines content =
     map dropCR (takeWhile (\<lambda>l. byte_len l < MaxScanTokenSize) (raw_lines content))"

text \<open>The variables of \<open>ChunkDocument\<close> that its loop and \<open>flushChunk\<close> update.\<close>

record chunker =
  doc_chunks :: "Chunk list"
  currentHeading :: gostring
  currentContent :: gostring
  currentOffset :: int
  lineOffset :: int

definition flushChunk :: "gostring \<Rightarrow> chunker \<Rightarrow> chunker" where
  "flushChunk path st =
     (if byte_len (currentContent st) > 0
      then st\<lparr>doc_chunks := doc_chunks st @
             [\<lparr>Path = path, Content = TrimSpace (currentContent st),
               Heading = currentHeading st, Offset = currentOffset st\<rparr>]\<rparr>
      else st)"

definition scan_step :: "gostring \<Rightarrow> chunker \<Rightarrow> gostring \<Rightarrow> chunker" where
  "scan_step path st line =
     (let st' =
        (if HasPrefix line (str ''#'')
         then (flushChunk path st)
                \<lparr>currentHeading := TrimSpace (TrimLeft line (str ''#'')),
                 currentContent := [],
                 currentOffset := lineOffset st\<rparr>
         else st\<lparr>currentContent :=
                  (if byte_len (currentContent st) > 0 then currentContent st @ [0x0A]
                   else currentContent st) @ line\<rparr>)
      in st'\<lparr>lineOffset := lineOffset st + int (byte_len line) + 1\<rparr>)"

definition ChunkDocument :: "gostring \<Rightarrow> gostring \<Rightarrow> Chunk list" where
  "ChunkDocument path content =
     (let start = \<lparr>doc_chunks = [], currentHeading = [], currentContent = [],
                   currentOffset = 0, lineOffset = 0\<rparr>;
          final = flushChunk path (foldl (scan_step path) start (scanner_lines content))
      in if length (doc_chunks final) = 0
         then [\<lparr>Path = path, Content = TrimSpace content, Heading = [], Offset = 0\<rparr>]
         else doc_chunks final)"

text \<open>
  Notions used to state what the chunker computes: the state before the first line, the
  update of the content builder by a line that is not a heading, the lines joined by
  newlines, and the offset reached after a list of lines.
\<close>

definition chunker_start :: chunker where
  "chunker_start = \<lparr>doc_chunks = [], currentHeading = [], currentContent = [],
                     currentOffset = 0, lineOffset = 0\<rparr>"

definition append_line :: "gostring \<Rightarrow> gostring \<Rightarrow> gostring" where
  "append_line cur line = (if byte_len cur > 0 then cur @ [0x0A] else cur) @ line"

fun join_lines :: "gostring list \<Rightarrow> gostring" where
  "join_lines [] = []"
| "join_lines [l] = l"
| "join_lines (l # ls) = l @ [0x0A] @ join_lines ls"

definition offset_of :: "gostring list \<Rightarrow> int" where
  "offset_of ls = (\<Sum>l \<leftarrow> ls. int (byte_len l) + 1)"

text \<open>
  The chunks a list of lines stands for. \<open>sections\<close> cuts the lines into the lines
  before the first heading line and, for every heading line, the lines up to the next
  heading line. A section gives a chunk when one of its lines is not empty;
  \<open>headed_chunks\<close> carries along the offset reached. \<open>unlines\<close> writes lines back
  with their newlines.
\<close>

fun sections :: "gostring list \<Rightarrow> gostring list \<times> (gostring \<times> gostring list) list" where
  "sections [] = ([], [])"
| "sections (l # ls) =
     (case sections ls of
        (body, rest) \<Rightarrow>
          if HasPrefix l (str ''#'') then ([], (l, body) # rest) else (l # body, rest))"

definition section_chunk :: "gostring \<Rightarrow> gostring \<Rightarrow> int \<Rightarrow> gostring list \<Rightarrow> Chunk list" where
  "section_chunk path heading off body =
     (if \<exists>l \<in> set body. l \<noteq> []
      then [\<lparr>Path = path, Content = TrimSpace (join_lines body), Heading = heading, Offset = off\<rparr>]
      else [])"

fun headed_chunks :: "gostring \<Rightarrow> int \<Rightarrow> (gostring \<times> gostring list) list \<Rightarrow> Chunk list" where
  "headed_chunks path off [] = []"
| "headed_chunks path off ((h, body) # rest) =
     section_chunk path (TrimSpace (TrimLeft h (str ''#''))) off body
       @ headed_chunks path (off + offset_of (h # body)) rest"

definition expected_chunks :: "gostring \<Rightarrow> gostring list \<Rightarrow> Chunk list" where
  "expected_chunks path ls =
     (case sections ls of
        (pre, rest) \<Rightarrow> section_chunk path [] 0 pre @ headed_chunks path (offset_of pre) rest)"

definition unlines :: "gostring list \<Rightarrow> gostring" where
  "unlines ls = concat (map (\<lambda>l. l @ [0x0A]) ls)"

section \<open>Batch embedding (cmd/generate-embeddings/main.go)\<close>

text \<open>
  The checkpoint. \<open>Completed\<close> is a Go \<open>map[int]bool\<close>: reading a key that is absent
  gives \<open>false\<close>.
\<close>

record checkpoint =
  cp_Chunks :: "Chunk list"
  cp_Embeddings :: "vector list"
  cp_Completed :: "int \<rightharpoonup> bool"
  cp_ModelInfo :: gostring
  cp_Dimension :: int

definition Completed :: "checkpoint \<Rightarrow> int \<Rightarrow> bool" where
  "Completed cp i = (case cp_Completed cp i of None \<Rightarrow> False | Some done \<Rightarrow> done)"

text \<open>
  Step 2.5 of \<open>main\<close>: the choice of the checkpoint to work on. The outcome of
  \<open>loadCheckpoint\<close> is the argument \<open>loaded\<close>: an error, no checkpoint file, or the
  decoded checkpoint. \<open>make([][]float32, n)\<close> is a list of \<open>n\<close> nil (empty) vectors.
\<close>

definition initial_checkpoint ::
    "gostring + checkpoint option \<Rightarrow> Chunk list \<Rightarrow> gostring \<Rightarrow> int \<Rightarrow> checkpoint" where
  "initial_checkpoint loaded chunks modelInfo dimension =
     (let cp =
        (case loaded of
           Inl err \<Rightarrow> None
         | Inr None \<Rightarrow> None
         | Inr (Some existingCP) \<Rightarrow>
             if length (cp_Chunks existingCP) \<noteq> length chunks
                \<or> cp_ModelInfo existingCP \<noteq> modelInfo
             then None else Some existingCP)
      in case cp of
           Some existingCP \<Rightarrow> existingCP
         | None \<Rightarrow>
             \<lparr>cp_Chunks = chunks, cp_Embeddings = replicate (length chunks) [],
              cp_Completed = Map.empty, cp_ModelInfo = modelInfo, cp_Dimension = dimension\<rparr>)"

definition toProcess :: "Chunk list \<Rightarrow> checkpoint \<Rightarrow> nat list" where
  "toProcess chunks cp = filter (\<lambda>i. \<not> Completed cp (int i)) [0..<length chunks]"

text \<open>
  Step 3. Each index of \<open>toProcess\<close> is handed to a task that calls the provider
  \<open>emb.Embed\<close> (a parameter) on the chunk's content and, on success, stores the vector
  in slot \<open>idx\<close> and marks \<open>idx\<close> completed; a failure is collected and the other
  tasks still run. In Go the tasks run concurrently; each changes only its own slot and
  key, under the mutex \<open>mu\<close>, so they are run here one after the other in dispatch
  order. The provider answers a text with an error or a vector, the same whenever it is
  asked. The indices handed to the provider are logged in \<open>rs_calls\<close>, which the
  Go code does not keep. An error is kept as index, path and message.
\<close>

record run_state =
  rs_cp :: checkpoint
  rs_errors :: "(nat \<times> gostring \<times> gostring) list"
  rs_calls :: "nat list"

definition embed_task ::
    "(gostring \<Rightarrow> gostring + vector) \<Rightarrow> Chunk list \<Rightarrow> run_state \<Rightarrow> nat \<Rightarrow> go_panic + run_state" where
  "embed_task Embed chunks st idx =
     (if idx \<ge> length chunks then Inl IndexOutOfRange
      else case Embed (Content (chunks ! idx)) of
             Inl err \<Rightarrow>
               Inr (st\<lparr>rs_errors := rs_errors st @ [(idx, Path (chunks ! idx), err)],
                       rs_calls := rs_calls st @ [idx]\<rparr>)
           | Inr emb_vec \<Rightarrow>
               if idx \<ge> length (cp_Embeddings (rs_cp st)) then Inl IndexOutOfRange
               else Inr (st\<lparr>rs_cp := (rs_cp st)
                               \<lparr>cp_Embeddings := (cp_Embeddings (rs_cp st))[idx := emb_vec],
                                cp_Completed := (cp_Completed (rs_cp st))(int idx \<mapsto> True)\<rparr>,
                             rs_calls := rs_calls st @ [idx]\<rparr>))"

fun run_tasks ::
    "(gostring \<Rightarrow> gostring + vector) \<Rightarrow> Chunk list \<Rightarrow> nat list \<Rightarrow> run_state \<Rightarrow> go_panic + run_state" where
  "run_tasks Embed chunks [] st = Inr st"
| "run_tasks Embed chunks (idx # rest) st =
     (case embed_task Embed chunks st idx of
        Inl p \<Rightarrow> Inl p
      | Inr st' \<Rightarrow> run_tasks Embed chunks rest st')"

text \<open>
  The end of a run: a panic, exit code 1 with the collected errors and the checkpoint that
  is saved, or the record written to the index file (step 4). The provider calls made are
  part of the outcome.
\<close>

datatype outcome =
  Crashed go_panic
| Exit1 "nat list" "(nat \<times> gostring \<times> gostring) list" checkpoint
| Finished "nat list" "real EmbeddingData"

definition embData_of :: "checkpoint \<Rightarrow> real EmbeddingData" where
  "embData_of cp =
     \<lparr>data_Chunks = cp_Chunks cp, data_Embeddings = cp_Embeddings cp,
      data_ModelInfo = cp_ModelInfo cp, data_Dimension = cp_Dimension cp\<rparr>"

definition generate ::
    "(gostring \<Rightarrow> gostring + vector) \<Rightarrow> Chunk list \<Rightarrow> checkpoint \<Rightarrow> outcome" where
  "generate Embed chunks cp =
     (let remaining = length (filter (\<lambda>i. \<not> Completed cp (int i)) [0..<length chunks])
      in if remaining = 0 then Finished [] (embData_of cp)
         else case run_tasks Embed chunks (toProcess chunks cp)
                     \<lparr>rs_cp = cp, rs_errors = [], rs_calls = []\<rparr> of
                Inl p \<Rightarrow> Crashed p
              | Inr st \<Rightarrow>
                  if length (rs_errors st) > 0
                  then Exit1 (rs_calls st) (rs_errors st) (rs_cp st)
                  else Finished (rs_calls st) (embData_of (rs_cp st)))"

text \<open>The errors a run collects over the indices \<open>todo\<close>, in dispatch order.\<close>

definition failures ::
    "(gostring \<Rightarrow> gostring + vector) \<Rightarrow> Chunk list \<Rightarrow> nat list \<Rightarrow> (nat \<times> gostring \<times> gostring) list" where
  "failures Embed chunks todo =
     concat (map (\<lambda>i. case Embed (Content (chunks ! i)) of
                          Inl err \<Rightarrow> [(i, Path (chunks ! i), err)] | Inr v \<Rightarrow> []) todo)"

section \<open>Concrete inputs\<close>

definition ex_chunk :: "string \<Rightarrow> Chunk" where
  "ex_chunk name = \<lparr>Path = str name, Content = str ''text'', Heading = [], Offset = 0\<rparr>"

text \<open>
  An index of three chunks with the vectors \<open>(0, 1)\<close>, \<open>(3, 4)\<close> and \<open>(1, 0)\<close>:
  \<open>0x3F800000\<close> is the pattern of 1.0, \<open>0x40400000\<close> of 3.0, \<open>0x40800000\<close> of 4.0
  (and \<open>0x3F000000\<close> of 0.5). Then an index with a chunk that has no vector, and one
  with two chunks and one vector.
\<close>

definition ex_index :: "float32 VectorIndex" where
  "ex_index =
     \<lparr>Chunks = [ex_chunk ''a.md'', ex_chunk ''b.md'', ex_chunk ''c.md''],
      Embeddings = [[0, 0x3F800000], [0x40400000, 0x40800000], [0x3F800000, 0]],
      Dimension = 2\<rparr>"

definition index_missing_vector :: "float32 VectorIndex" where
  "index_missing_vector =
     \<lparr>Chunks = [ex_chunk ''a.md''], Embeddings = [], Dimension = 2\<rparr>"

definition index_short_of_vectors :: "float32 VectorIndex" where
  "index_short_of_vectors =
     \<lparr>Chunks = [ex_chunk ''a.md'', ex_chunk ''b.md''], Embeddings = [[0x3F800000, 0]],
      Dimension = 2\<rparr>"

text \<open>A decoded record with a chunk that has no vector, and one whose vector is too short.\<close>

definition data_missing_vector :: "real EmbeddingData" where
  "data_missing_vector =
     \<lparr>data_Chunks = [ex_chunk ''a.md''], data_Embeddings = [],
      data_ModelInfo = str ''openai-text-embedding-3-small'', data_Dimension = 2\<rparr>"

definition data_short_vector :: "real EmbeddingData" where
  "data_short_vector =
     \<lparr>data_Chunks = [ex_chunk ''a.md''], data_Embeddings = [[1]],
      data_ModelInfo = str ''openai-text-embedding-3-small'', data_Dimension = 2\<rparr>"

text \<open>
  A checkpoint left by an earlier run over one document, and the chunk list of a later run
  in which the document's text has changed.
\<close>

definition stale_checkpoint :: checkpoint where
  "stale_checkpoint =
     \<lparr>cp_Chunks = [\<lparr>Path = str ''a.md'', Content = str ''old text'', Heading = [], Offset = 0\<rparr>],
      cp_Embeddings = [[1, 0]],
      cp_Completed = [0 \<mapsto> True],
      cp_ModelInfo = str ''openai-text-embedding-3-small'',
      cp_Dimension = 2\<rparr>"

definition current_chunks :: "Chunk list" where
  "current_chunks = [\<lparr>Path = str ''a.md'', Content = str ''new text'', Heading = [], Offset = 0\<rparr>]"

text \<open>
  Two chunks, a checkpoint in which the first of them is done, and a provider that answers
  every text that is not empty with the same vector.
\<close>

definition two_chunks :: "Chunk list" where
  "two_chunks =
     [\<lparr>Path = str ''a.md'', Content = str ''alpha'', Heading = [], Offset = 0\<rparr>,
      \<lparr>Path = str ''b.md'', Content = str ''beta'', Heading = [], Offset = 0\<rparr>]"

definition half_checkpoint :: checkpoint where
  "half_checkpoint =
     \<lparr>cp_Chunks = two_chunks, cp_Embeddings = [[1, 0], []], cp_Completed = [0 \<mapsto> True],
      cp_ModelInfo = str ''openai-text-embedding-3-small'', cp_Dimension = 2\<rparr>"

definition fixed_provider :: "gostring \<Rightarrow> gostring + vector" where
  "fixed_provider text = (if text = [] then Inl (str ''cannot embed empty text'') else Inr [0, 1])"

text \<open>A provider whose vector tells the texts apart: the length of the text.\<close>

definition length_provider :: "gostring \<Rightarrow> gostring + vector" where
  "length_provider text = Inr [real (length text)]"

section \<open>Properties of the similarity search\<close>

text \<open>
  The comparisons on some patterns: \<open>+0\<close> equals \<open>-0\<close> (\<open>0x80000000\<close>), 1.0 is
  greater than 0.5, a NaN (\<open>0x7FC00000\<close>) is not even at least itself, infinity
  (\<open>0x7F800000\<close>) is greater than the largest finite value, -0.5 is greater than -1.0,
  and the smallest positive value is greater than minus infinity (\<open>0xFF800000\<close>).
\<close>

lemma f32_comparison_examples:
  "f32_eq 0 0x80000000"
  "f32_gt 0x3F800000 0x3F000000"
  "\<not> f32_ge 0x7FC00000 0x7FC00000"
  "f32_gt 0x7F800000 0x7F7FFFFF"
  "f32_gt 0xBF000000 0xBF800000"
  "f32_gt 0x00000001 0xFF800000"
  by (simp_all add: f32_eq_def f32_ge_def f32_gt_def f32_isNaN_def f32_magnitude_def f32_key_def
      f32_negative_def)

text \<open>
  What holds of \<open>CosineSimilarity\<close> whatever the arithmetic is: it never panics, it
  returns 0 for vectors of different lengths and when one of the sums of squares compares
  equal to 0, and otherwise the rounded quotient. How that rounded value relates to the
  cosine of the angle between the vectors depends on the arithmetic.
\<close>

lemma cos_loop_no_panic:
  "length a = length b \<Longrightarrow> \<exists>r. cos_loop fl a b acc = Inr r"
proof (induction fl a b acc rule: cos_loop.induct)
  case (1 fl b acc)
  then show ?case by (cases acc) auto
next
  case (2 fl x a acc)
  then show ?case by simp
next
  case (3 fl x a y b dotProduct normA normB)
  then show ?case by simp
qed

lemma CosineSimilarity_no_panic: "\<exists>r. CosineSimilarity fl a b = Inr r"
proof (cases "length a = length b")
  case True
  from cos_loop_no_panic [OF True, of fl "(0, 0, 0)"] obtain r where
    "cos_loop fl a b (0, 0, 0) = Inr r" ..
  then show ?thesis using True by (cases r) (simp add: CosineSimilarity_def)
next
  case False
  then show ?thesis by (simp add: CosineSimilarity_def)
qed

lemma CosineSimilarity_length_mismatch:
  "length a \<noteq> length b \<Longrightarrow> CosineSimilarity fl a b = Inr 0"
  by (simp add: CosineSimilarity_def)

lemma CosineSimilarity_sums:
  assumes "length a = length b" and "cos_loop fl a b (0, 0, 0) = Inr (dotProduct, normA, normB)"
  shows "CosineSimilarity fl a b =
     Inr (if f32_eq normA 0 \<or> f32_eq normB 0 then 0
          else div32 fl dotProduct (mul32 fl (sqrt32 fl normA) (sqrt32 fl normB)))"
  using assms by (simp add: CosineSimilarity_def)

lemma mset_insert_by: "mset (insert_by lt x ys) = add_mset x (mset ys)"
  by (induction ys) auto

lemma mset_sort_Slice: "mset (sort_Slice lt xs) = mset xs"
  by (induction xs) (auto simp: sort_Slice_def mset_insert_by)

lemma set_insert_by: "set (insert_by lt x ys) = insert x (set ys)"
  by (induction ys) auto

lemma set_sort_Slice: "set (sort_Slice lt xs) = set xs"
  using mset_sort_Slice [of lt xs] by (metis set_mset_mset)

text \<open>On scores that are not NaN the comparison \<open>>\<close> orders a list.\<close>

lemma sorted_insert_by:
  assumes "\<not> f32_isNaN (Score x)" and "\<forall>y \<in> set ys. \<not> f32_isNaN (Score y)"
    and "sorted_wrt (\<lambda>a b. f32_ge (Score a) (Score b)) ys"
  shows "sorted_wrt (\<lambda>a b. f32_ge (Score a) (Score b))
           (insert_by (\<lambda>a b. f32_gt (Score a) (Score b)) x ys)"
  using assms
proof (induction ys)
  case Nil
  then show ?case by simp
next
  case (Cons y ys)
  then show ?case by (auto simp: set_insert_by f32_ge_def f32_gt_def)
qed

lemma sorted_sort_Slice:
  assumes "\<forall>y \<in> set xs. \<not> f32_isNaN (Score y)"
  shows "sorted_wrt (\<lambda>a b. f32_ge (Score a) (Score b))
           (sort_Slice (\<lambda>a b. f32_gt (Score a) (Score b)) xs)"
  using assms
proof (induction xs)
  case Nil
  then show ?case by (simp add: sort_Slice_def)
next
  case (Cons x xs)
  then have "sorted_wrt (\<lambda>a b. f32_ge (Score a) (Score b))
           (sort_Slice (\<lambda>a b. f32_gt (Score a) (Score b)) xs)" by simp
  moreover have "\<forall>y \<in> set (sort_Slice (\<lambda>a b. f32_gt (Score a) (Score b)) xs).
      \<not> f32_isNaN (Score y)"
    using Cons.prems by (simp add: set_sort_Slice)
  moreover have "\<not> f32_isNaN (Score x)" using Cons.prems by simp
  ultimately show ?case
    using sorted_insert_by [of x "sort_Slice (\<lambda>a b. f32_gt (Score a) (Score b)) xs"]
    by (simp add: sort_Slice_def)
qed

lemma search_loop_matches:
  "length cs \<le> length es \<Longrightarrow>
   search_loop fl cs es q threshold acc =
     Inr (acc @ List.map_filter
       (\<lambda>(c, e). case CosineSimilarity fl q e of
                   Inl p \<Rightarrow> None
                 | Inr score \<Rightarrow>
                     if f32_ge score threshold then Some \<lparr>res_Chunk = c, Score = score\<rparr>
                     else None)
       (zip cs es))"
proof (induction fl cs es q threshold acc rule: search_loop.induct)
  case (1 fl es q threshold results)
  then show ?case by simp
next
  case (2 fl c cs q threshold results)
  then show ?case by simp
next
  case (3 fl c cs e es q threshold results)
  from CosineSimilarity_no_panic [of fl q e] obtain score where
    s: "CosineSimilarity fl q e = Inr score" ..
  show ?case using 3 s by simp
qed

lemma search_loop_too_few_vectors:
  "length es < length cs \<Longrightarrow> search_loop fl cs es q threshold acc = Inl IndexOutOfRange"
proof (induction fl cs es q threshold acc rule: search_loop.induct)
  case (1 fl es q threshold results)
  then show ?case by simp
next
  case (2 fl c cs q threshold results)
  then show ?case by simp
next
  case (3 fl c cs e es q threshold results)
  from CosineSimilarity_no_panic [of fl q e] obtain score where
    s: "CosineSimilarity fl q e = Inr score" ..
  show ?case using 3 s by simp
qed

lemma matches_ge:
  "r \<in> set (matches fl index q threshold) \<Longrightarrow> f32_ge (Score r) threshold"
  by (auto simp: matches_def map_filter_def split: sum.splits if_splits)

lemma matches_not_NaN:
  "r \<in> set (matches fl index q threshold) \<Longrightarrow> \<not> f32_isNaN (Score r)"
  using matches_ge [of r fl index q threshold] by (simp add: f32_ge_def)

text \<open>
  C1 as stated does not hold for every index: on an index with a chunk that has no vector
  \<open>Search\<close> panics on the read of \<open>index.Embeddings[i]\<close>, whatever the arithmetic is.
\<close>

theorem Search_panics_on_missing_vector:
  "\<forall>fl. Search fl index_missing_vector [0x3F800000, 0] 1 0 = Inl IndexOutOfRange"
  by (simp add: Search_def index_missing_vector_def)

text \<open>
  C1, amended. For every index that holds at least as many vectors as chunks and every
  query of the index's dimension, \<open>Search\<close> returns, without a panic, exactly the entries
  whose score, the \<open>float32\<close> that \<open>CosineSimilarity\<close> returns, is at least the
  threshold in the \<open>float32\<close> comparison; none of them scores NaN. They are ordered by
  descending score and cut to the first \<open>topK\<close> of them when \<open>topK > 0\<close>; with
  \<open>topK \<le> 0\<close> all of them are returned. On an index with fewer vectors than chunks every
  search with a query of the index's dimension panics.
\<close>

theorem Search_filters_sorts_truncates:
  "(int (length q) = Dimension index \<and> length (Chunks index) \<le> length (Embeddings index) \<longrightarrow>
      (\<exists>s. mset s = mset (matches fl index q threshold)
          \<and> sorted_wrt (\<lambda>a b. f32_ge (Score a) (Score b)) s
          \<and> (\<forall>r \<in> set s. f32_ge (Score r) threshold \<and> \<not> f32_isNaN (Score r))
          \<and> Search fl index q topK threshold = Inr (if topK > 0 then take (nat topK) s else s)))
   \<and> (int (length q) = Dimension index \<and> length (Embeddings index) < length (Chunks index) \<longrightarrow>
        Search fl index q topK threshold = Inl IndexOutOfRange)"
proof (intro conjI impI)
  assume a: "int (length q) = Dimension index \<and> length (Chunks index) \<le> length (Embeddings index)"
  let ?s = "sort_Slice (\<lambda>ri rj. f32_gt (Score ri) (Score rj)) (matches fl index q threshold)"
  have loop: "search_loop fl (Chunks index) (Embeddings index) q threshold []
      = Inr (matches fl index q threshold)"
    using a search_loop_matches [of "Chunks index" "Embeddings index" fl q threshold "[]"]
    by (simp add: matches_def)
  have "Search fl index q topK threshold = Inr (if topK > 0 then take (nat topK) ?s else ?s)"
    using a by (simp add: Search_def loop Let_def)
  moreover have "mset ?s = mset (matches fl index q threshold)"
    by (rule mset_sort_Slice)
  moreover have "sorted_wrt (\<lambda>a b. f32_ge (Score a) (Score b)) ?s"
    using matches_not_NaN [of _ fl index q threshold] by (intro sorted_sort_Slice) blast
  moreover have "\<forall>r \<in> set ?s. f32_ge (Score r) threshold \<and> \<not> f32_isNaN (Score r)"
    using matches_ge [of _ fl index q threshold] matches_not_NaN [of _ fl index q threshold]
    by (simp add: set_sort_Slice)
  ultimately show "\<exists>s. mset s = mset (matches fl index q threshold)
          \<and> sorted_wrt (\<lambda>a b. f32_ge (Score a) (Score b)) s
          \<and> (\<forall>r \<in> set s. f32_ge (Score r) threshold \<and> \<not> f32_isNaN (Score r))
          \<and> Search fl index q topK threshold = Inr (if topK > 0 then take (nat topK) s else s)"
    by blast
next
  assume "int (length q) = Dimension index \<and> length (Embeddings index) < length (Chunks index)"
  then show "Search fl index q topK threshold = Inl IndexOutOfRange"
    by (simp add: Search_def search_loop_too_few_vectors)
qed

theorem Search_filters_sorts_truncates_witness:
  "\<forall>fl. (\<exists>s. mset s = mset (matches fl ex_index [0x3F800000, 0] 0x3F000000)
           \<and> sorted_wrt (\<lambda>a b. f32_ge (Score a) (Score b)) s
           \<and> (\<forall>r \<in> set s. f32_ge (Score r) 0x3F000000 \<and> \<not> f32_isNaN (Score r))
           \<and> Search fl ex_index [0x3F800000, 0] 1 0x3F000000 = Inr (take 1 s))
        \<and> Search fl index_short_of_vectors [0x3F800000, 0] 1 0x3F000000 = Inl IndexOutOfRange"
proof (intro allI conjI)
  fix fl
  show "\<exists>s. mset s = mset (matches fl ex_index [0x3F800000, 0] 0x3F000000)
           \<and> sorted_wrt (\<lambda>a b. f32_ge (Score a) (Score b)) s
           \<and> (\<forall>r \<in> set s. f32_ge (Score r) 0x3F000000 \<and> \<not> f32_isNaN (Score r))
           \<and> Search fl ex_index [0x3F800000, 0] 1 0x3F000000 = Inr (take 1 s)"
    using Search_filters_sorts_truncates [of "[0x3F800000, 0]" ex_index fl "0x3F000000" 1]
    by (simp add: ex_index_def)
next
  fix fl
  show "Search fl index_short_of_vectors [0x3F800000, 0] 1 0x3F000000 = Inl IndexOutOfRange"
    using Search_filters_sorts_truncates
      [of "[0x3F800000, 0]" index_short_of_vectors fl "0x3F000000" 1]
    by (simp add: index_short_of_vectors_def)
qed

text \<open>
  C7. For every index and every query vector whose length differs from the index's
  dimension, \<open>Search\<close> returns the empty sequence and does not panic.
\<close>

theorem Search_wrong_dimension:
  "int (length q) \<noteq> Dimension index \<Longrightarrow> Search fl index q topK threshold = Inr []"
  by (simp add: Search_def)

theorem Search_wrong_dimension_witness:
  "\<forall>fl. int (length [0x3F800000 :: float32]) \<noteq> Dimension ex_index
        \<and> Search fl ex_index [0x3F800000] 5 0 = Inr []"
  using Search_wrong_dimension [of "[0x3F800000]" ex_index _ 5 0]
  by (simp add: ex_index_def)

section \<open>Loading an index\<close>

text \<open>
  C5 as stated does not hold: a decoded record whose chunk has no vector, and one whose
  vector is shorter than the declared dimension, are both loaded without an error, and the
  index produced is as inconsistent as the record.
\<close>

theorem load_accepts_inconsistent_data:
  "main_load_index (Inr data_missing_vector) =
     Inr \<lparr>Chunks = [ex_chunk ''a.md''], Embeddings = [], Dimension = 2\<rparr>
   \<and> main_load_index (Inr data_short_vector) =
     Inr \<lparr>Chunks = [ex_chunk ''a.md''], Embeddings = [[1]], Dimension = 2\<rparr>"
  by (simp add: main_load_index_def LoadIndex_def data_missing_vector_def data_short_vector_def)

text \<open>
  C5, amended. Loading performs no validation: only a decoding error is fatal, and every
  decoded record is turned into an index that carries its chunks, vectors and dimension
  unchanged, whether or not the counts and the vector lengths agree.
\<close>

theorem load_never_validates:
  "(\<exists>index. main_load_index (Inr data) = Inr index
      \<and> Chunks index = data_Chunks data
      \<and> Embeddings index = data_Embeddings data
      \<and> Dimension index = data_Dimension data)
   \<and> (\<exists>msg. main_load_index (Inl err) = Inl msg)"
  by (simp add: main_load_index_def LoadIndex_def)

theorem load_never_validates_witness:
  "\<exists>index. main_load_index (Inr data_short_vector) = Inr index
      \<and> Chunks index = [ex_chunk ''a.md'']
      \<and> Embeddings index = [[1]]
      \<and> Dimension index = 2"
  using load_never_validates [of data_short_vector, THEN conjunct1]
  by (simp add: data_short_vector_def)

text \<open>
  What the missing validation leads to: on an index with fewer vectors than chunks every
  search with a query of the right dimension panics (shown above), and a vector of the
  wrong length is scored 0.
\<close>

section \<open>Embedders\<close>

lemma sum_list_scaled_squares:
  "(\<Sum>x \<leftarrow> map (\<lambda>x. x * c) v. x * x) = c * c * (\<Sum>x \<leftarrow> v. x * (x::real))"
  by (induction v) (simp_all add: algebra_simps)

lemma sum_squares_nonneg: "0 \<le> (\<Sum>x \<leftarrow> v. x * (x::real))"
  by (induction v) simp_all

text \<open>\<open>l2normalize\<close> (the OpenAI path) scales a vector that is not zero to unit length.\<close>

lemma l2normalize_unit:
  assumes "(\<Sum>x \<leftarrow> v. x * x) \<noteq> 0"
  shows "euclid_norm (l2normalize v) = 1"
proof -
  let ?S = "\<Sum>x \<leftarrow> v. x * x"
  have pos: "0 < ?S" using assms sum_squares_nonneg [of v] by simp
  have "l2normalize v = map (\<lambda>x. x * (1 / sqrt ?S)) v"
    using assms by (simp add: l2normalize_def Let_def)
  then have "euclid_norm (l2normalize v) = sqrt ((1 / sqrt ?S) * (1 / sqrt ?S) * ?S)"
    unfolding euclid_norm_def by (simp only: sum_list_scaled_squares)
  also have "(1 / sqrt ?S) * (1 / sqrt ?S) * ?S = 1"
    using pos by (simp add: field_simps)
  finally show ?thesis by simp
qed

lemma l2normalize_zero: "(\<Sum>x \<leftarrow> v. x * x) = 0 \<Longrightarrow> l2normalize v = v"
  by (simp add: l2normalize_def)

text \<open>
  \<open>SimpleEmbedder.Embed\<close> multiplies by the inverse of the sum of squares, not of its
  square root: the vector it returns has length \<open>1 / |vec|\<close>.
\<close>

lemma SimpleEmbedder_Embed_norm:
  assumes "0 \<le> edim"
    and "hash_loop (nat edim) text 0 (replicate (nat edim) 0) = Inr vec"
    and "0 < (\<Sum>v \<leftarrow> vec. v * v)"
  shows "\<exists>w. SimpleEmbedder_Embed edim text = Inr w \<and> euclid_norm w = 1 / euclid_norm vec"
proof -
  let ?S = "\<Sum>v \<leftarrow> vec. v * v"
  let ?w = "map (\<lambda>v. v * (1 / ?S)) vec"
  have res: "SimpleEmbedder_Embed edim text = Inr ?w"
    using assms by (simp add: SimpleEmbedder_Embed_def Let_def)
  have "euclid_norm ?w = sqrt ((1 / ?S) * (1 / ?S) * ?S)"
    unfolding euclid_norm_def by (simp only: sum_list_scaled_squares)
  also have "(1 / ?S) * (1 / ?S) * ?S = 1 / ?S"
    using assms(3) by (simp add: field_simps)
  also have "sqrt (1 / ?S) = 1 / euclid_norm vec"
    by (simp add: euclid_norm_def real_sqrt_divide)
  finally show ?thesis using res by blast
qed

text \<open>
  C6 fails on the code: with dimension 1 the hash-based embedder maps the text \<open>a\<close>
  (code point 97) to the vector \<open>[1000 / 97]\<close>, whose Euclidean norm is about 10.3.
\<close>

theorem SimpleEmbedder_Embed_not_unit:
  "SimpleEmbedder_Embed 1 (str ''a'') = Inr [1000 / 97] \<and> euclid_norm [1000 / 97] = 1000 / 97"
proof -
  have "SimpleEmbedder_Embed 1 (str ''a'') = Inr [1000 / 97]"
    by (simp add: SimpleEmbedder_Embed_def str_def rune_len_def)
  moreover have "euclid_norm [1000 / 97] = 1000 / 97"
    using real_sqrt_abs [of "1000 / 97"] by (simp add: euclid_norm_def power2_eq_square)
  ultimately show ?thesis by simp
qed

text \<open>The OpenAI path returns a zero vector of the service as it is.\<close>

lemma OpenAIEmbedder_Embed_zero_vector:
  "OpenAIEmbedder_Embed (\<lambda>text. Inr [[0, 0]]) (str ''a'') = Inr [0, 0]"
  by (simp add: OpenAIEmbedder_Embed_def str_def byte_len_def rune_len_def l2normalize_def)

section \<open>Batch embedding: checkpoints and resuming\<close>

text \<open>
  The check of step 2.5 compares the number of chunks and the model name. Without a usable
  checkpoint, with another number of chunks or with another model, the run starts afresh
  and every index is to be processed.
\<close>

lemma toProcess_fresh:
  "toProcess chunks
     \<lparr>cp_Chunks = chunks, cp_Embeddings = replicate (length chunks) [],
      cp_Completed = Map.empty, cp_ModelInfo = modelInfo, cp_Dimension = dimension\<rparr>
   = [0..<length chunks]"
  by (simp add: toProcess_def Completed_def)

lemma initial_checkpoint_fresh:
  assumes "loaded = Inl err \<or> loaded = Inr None
     \<or> (\<exists>existingCP. loaded = Inr (Some existingCP)
          \<and> (length (cp_Chunks existingCP) \<noteq> length chunks \<or> cp_ModelInfo existingCP \<noteq> modelInfo))"
  shows "toProcess chunks (initial_checkpoint loaded chunks modelInfo dimension) = [0..<length chunks]"
  using assms toProcess_fresh [of chunks modelInfo dimension]
  by (auto simp: initial_checkpoint_def)

lemma initial_checkpoint_resumed:
  "length (cp_Chunks existingCP) = length chunks \<Longrightarrow> cp_ModelInfo existingCP = modelInfo
   \<Longrightarrow> initial_checkpoint (Inr (Some existingCP)) chunks modelInfo dimension = existingCP"
  by (simp add: initial_checkpoint_def)

text \<open>
  C3 fails on the code: the chunks themselves are never compared. A checkpoint written for
  the old text of a document is resumed when the text has changed but the number of chunks
  has not: no index is processed, and the index file pairs the old chunk with the old
  vector.
\<close>

theorem stale_checkpoint_is_resumed:
  "cp_Chunks stale_checkpoint \<noteq> current_chunks
   \<and> initial_checkpoint (Inr (Some stale_checkpoint)) current_chunks
        (str ''openai-text-embedding-3-small'') 2 = stale_checkpoint
   \<and> toProcess current_chunks stale_checkpoint = []
   \<and> generate (\<lambda>text. Inr [0, 1]) current_chunks stale_checkpoint =
       Finished []
         \<lparr>data_Chunks = [\<lparr>Path = str ''a.md'', Content = str ''old text'', Heading = [], Offset = 0\<rparr>],
          data_Embeddings = [[1, 0]], data_ModelInfo = str ''openai-text-embedding-3-small'',
          data_Dimension = 2\<rparr>"
  by (simp add: stale_checkpoint_def current_chunks_def initial_checkpoint_def toProcess_def
      Completed_def generate_def embData_of_def str_def)

theorem stale_checkpoint_is_resumed_witness:
  "toProcess current_chunks
     (initial_checkpoint (Inr (Some stale_checkpoint)) current_chunks
        (str ''openai-text-embedding-3-small'') 2) = []"
  using stale_checkpoint_is_resumed by simp

text \<open>
  The same happens when the chunks are the same but come in another order (the loader walks
  a Go map, whose order changes from run to run): the checkpoint written for the order
  \<open>a.md\<close>, \<open>b.md\<close> is resumed by a run that sees \<open>b.md\<close>, \<open>a.md\<close>, and the
  index record pairs the chunk of \<open>b.md\<close> with the vector of the text of \<open>a.md\<close>.
\<close>

lemma reordered_chunks_are_mispaired:
  "initial_checkpoint (Inr (Some half_checkpoint)) (rev two_chunks)
     (str ''openai-text-embedding-3-small'') 2 = half_checkpoint
   \<and> generate length_provider (rev two_chunks) half_checkpoint =
       Finished [1]
         \<lparr>data_Chunks = two_chunks, data_Embeddings = [[1, 0], [5]],
          data_ModelInfo = str ''openai-text-embedding-3-small'', data_Dimension = 2\<rparr>
   \<and> length_provider (Content (two_chunks ! 1)) = Inr [4]"
  by (simp add: half_checkpoint_def two_chunks_def length_provider_def initial_checkpoint_def
      generate_def toProcess_def Completed_def embed_task_def embData_of_def str_def)

lemma embed_task_ok:
  assumes "idx < length chunks" "idx < length (cp_Embeddings (rs_cp st))"
  shows "\<exists>st'. embed_task Embed chunks st idx = Inr st'
     \<and> rs_calls st' = rs_calls st @ [idx]
     \<and> rs_errors st' = rs_errors st @ failures Embed chunks [idx]
     \<and> cp_Chunks (rs_cp st') = cp_Chunks (rs_cp st)
     \<and> cp_ModelInfo (rs_cp st') = cp_ModelInfo (rs_cp st)
     \<and> cp_Dimension (rs_cp st') = cp_Dimension (rs_cp st)
     \<and> length (cp_Embeddings (rs_cp st')) = length (cp_Embeddings (rs_cp st))
     \<and> (\<forall>i. i \<noteq> idx \<longrightarrow> cp_Embeddings (rs_cp st') ! i = cp_Embeddings (rs_cp st) ! i)
     \<and> (\<forall>v. Embed (Content (chunks ! idx)) = Inr v \<longrightarrow> cp_Embeddings (rs_cp st') ! idx = v)
     \<and> (\<forall>e. Embed (Content (chunks ! idx)) = Inl e \<longrightarrow> cp_Embeddings (rs_cp st') ! idx = cp_Embeddings (rs_cp st) ! idx)"
  using assms by (cases "Embed (Content (chunks ! idx))") (simp_all add: embed_task_def failures_def)

lemma run_tasks_ok:
  assumes "\<forall>i \<in> set todo. i < length chunks \<and> i < length (cp_Embeddings (rs_cp st))"
  shows "\<exists>st'. run_tasks Embed chunks todo st = Inr st'
     \<and> rs_calls st' = rs_calls st @ todo
     \<and> rs_errors st' = rs_errors st @ failures Embed chunks todo
     \<and> cp_Chunks (rs_cp st') = cp_Chunks (rs_cp st)
     \<and> cp_ModelInfo (rs_cp st') = cp_ModelInfo (rs_cp st)
     \<and> cp_Dimension (rs_cp st') = cp_Dimension (rs_cp st)
     \<and> length (cp_Embeddings (rs_cp st')) = length (cp_Embeddings (rs_cp st))
     \<and> (\<forall>i. i \<notin> set todo \<longrightarrow> cp_Embeddings (rs_cp st') ! i = cp_Embeddings (rs_cp st) ! i)
     \<and> (\<forall>i \<in> set todo. \<forall>v. Embed (Content (chunks ! i)) = Inr v \<longrightarrow> cp_Embeddings (rs_cp st') ! i = v)"
  using assms
proof (induction todo arbitrary: st)
  case Nil
  then show ?case by (simp add: failures_def)
next
  case (Cons idx rest)
  from Cons.prems have idx: "idx < length chunks" "idx < length (cp_Embeddings (rs_cp st))"
    by simp_all
  from embed_task_ok [OF idx, of Embed] obtain st1 where st1:
    "embed_task Embed chunks st idx = Inr st1"
    "rs_calls st1 = rs_calls st @ [idx]"
    "rs_errors st1 = rs_errors st @ failures Embed chunks [idx]"
    "cp_Chunks (rs_cp st1) = cp_Chunks (rs_cp st)"
    "cp_ModelInfo (rs_cp st1) = cp_ModelInfo (rs_cp st)"
    "cp_Dimension (rs_cp st1) = cp_Dimension (rs_cp st)"
    "length (cp_Embeddings (rs_cp st1)) = length (cp_Embeddings (rs_cp st))"
    "\<forall>i. i \<noteq> idx \<longrightarrow> cp_Embeddings (rs_cp st1) ! i = cp_Embeddings (rs_cp st) ! i"
    "\<forall>v. Embed (Content (chunks ! idx)) = Inr v \<longrightarrow> cp_Embeddings (rs_cp st1) ! idx = v"
    by blast
  have "\<forall>i \<in> set rest. i < length chunks \<and> i < length (cp_Embeddings (rs_cp st1))"
    using Cons.prems st1(7) by simp
  from Cons.IH [OF this] obtain st2 where st2:
    "run_tasks Embed chunks rest st1 = Inr st2"
    "rs_calls st2 = rs_calls st1 @ rest"
    "rs_errors st2 = rs_errors st1 @ failures Embed chunks rest"
    "cp_Chunks (rs_cp st2) = cp_Chunks (rs_cp st1)"
    "cp_ModelInfo (rs_cp st2) = cp_ModelInfo (rs_cp st1)"
    "cp_Dimension (rs_cp st2) = cp_Dimension (rs_cp st1)"
    "length (cp_Embeddings (rs_cp st2)) = length (cp_Embeddings (rs_cp st1))"
    "\<forall>i. i \<notin> set rest \<longrightarrow> cp_Embeddings (rs_cp st2) ! i = cp_Embeddings (rs_cp st1) ! i"
    "\<forall>i \<in> set rest. \<forall>v. Embed (Content (chunks ! i)) = Inr v \<longrightarrow> cp_Embeddings (rs_cp st2) ! i = v"
    by blast
  have run: "run_tasks Embed chunks (idx # rest) st = Inr st2"
    by (simp add: st1(1) st2(1))
  have calls: "rs_calls st2 = rs_calls st @ idx # rest"
    by (simp add: st1(2) st2(2))
  have errs: "rs_errors st2 = rs_errors st @ failures Embed chunks (idx # rest)"
    by (simp add: st1(3) st2(3) failures_def)
  have untouched: "\<forall>i. i \<notin> set (idx # rest) \<longrightarrow> cp_Embeddings (rs_cp st2) ! i = cp_Embeddings (rs_cp st) ! i"
    using st1(8) st2(8) by simp
  have stored: "\<forall>i \<in> set (idx # rest). \<forall>v. Embed (Content (chunks ! i)) = Inr v \<longrightarrow> cp_Embeddings (rs_cp st2) ! i = v"
  proof (intro ballI allI impI)
    fix i v assume i: "i \<in> set (idx # rest)" and v: "Embed (Content (chunks ! i)) = Inr v"
    show "cp_Embeddings (rs_cp st2) ! i = v"
    proof (cases "i \<in> set rest")
      case True
      then show ?thesis using st2(9) v by blast
    next
      case False
      then have "i = idx" using i by simp
      then show ?thesis using False st2(8) st1(9) v by simp
    qed
  qed
  show ?case
    using run calls errs untouched stored st1(4-7) st2(4-7) by simp
qed

lemma failures_empty:
  "failures Embed chunks todo = [] \<Longrightarrow> i \<in> set todo \<Longrightarrow> \<exists>v. Embed (Content (chunks ! i)) = Inr v"
  by (induction todo) (auto simp: failures_def split: sum.splits)

lemma set_toProcess: "set (toProcess chunks cp) = {i. i < length chunks \<and> \<not> Completed cp (int i)}"
  by (auto simp: toProcess_def)

lemma distinct_toProcess: "distinct (toProcess chunks cp)"
  by (simp add: toProcess_def)

text \<open>
  C4. Let the checkpoint hold one vector slot per chunk. The provider is called exactly
  once for each chunk index that the checkpoint does not mark completed, and for no other
  index. When no call fails, the run ends with the index record: it has a vector for every
  index, the checkpoint's own vector where the index was completed, and the vector the
  provider returned for the chunk's content elsewhere. When a call fails, the run ends with
  exit code 1 and the collected errors.
\<close>

theorem resume_dispatches_missing_and_keeps_vectors:
  assumes valid: "length (cp_Embeddings cp) = length chunks"
  shows "\<exists>calls. set calls = {i. i < length chunks \<and> \<not> Completed cp (int i)} \<and> distinct calls \<and>
     (if failures Embed chunks calls \<noteq> []
      then \<exists>cp'. generate Embed chunks cp = Exit1 calls (failures Embed chunks calls) cp'
      else \<exists>data. generate Embed chunks cp = Finished calls data
             \<and> data_Chunks data = cp_Chunks cp
             \<and> length (data_Embeddings data) = length chunks
             \<and> (\<forall>i < length chunks.
                   if Completed cp (int i) then data_Embeddings data ! i = cp_Embeddings cp ! i
                   else Embed (Content (chunks ! i)) = Inr (data_Embeddings data ! i)))"
proof -
  let ?todo = "toProcess chunks cp"
  let ?st = "\<lparr>rs_cp = cp, rs_errors = [], rs_calls = []\<rparr>"
  have sets: "set ?todo = {i. i < length chunks \<and> \<not> Completed cp (int i)}"
    by (rule set_toProcess)
  have "\<forall>i \<in> set ?todo. i < length chunks \<and> i < length (cp_Embeddings (rs_cp ?st))"
    using valid by (simp add: sets)
  from run_tasks_ok [OF this, of Embed] obtain st' where st':
    "run_tasks Embed chunks ?todo ?st = Inr st'"
    "rs_calls st' = ?todo"
    "rs_errors st' = failures Embed chunks ?todo"
    "cp_Chunks (rs_cp st') = cp_Chunks cp"
    "length (cp_Embeddings (rs_cp st')) = length (cp_Embeddings cp)"
    "\<forall>i. i \<notin> set ?todo \<longrightarrow> cp_Embeddings (rs_cp st') ! i = cp_Embeddings cp ! i"
    "\<forall>i \<in> set ?todo. \<forall>v. Embed (Content (chunks ! i)) = Inr v \<longrightarrow> cp_Embeddings (rs_cp st') ! i = v"
    by auto
  show ?thesis
  proof (cases "?todo = []")
    case True
    then have "generate Embed chunks cp = Finished [] (embData_of cp)"
      by (simp add: generate_def toProcess_def)
    moreover have "\<forall>i < length chunks. Completed cp (int i)"
      using True sets by auto
    ultimately show ?thesis
      using True sets valid
      by (intro exI [of _ "[]"]) (simp add: failures_def embData_of_def)
  next
    case False
    then have rem: "length (filter (\<lambda>i. \<not> Completed cp (int i)) [0..<length chunks]) \<noteq> 0"
      by (simp add: toProcess_def)
    show ?thesis
    proof (cases "failures Embed chunks ?todo = []")
      case True
      have gen: "generate Embed chunks cp = Finished ?todo (embData_of (rs_cp st'))"
        using rem st'(1,2,3) True by (simp add: generate_def Let_def)
      have vecs: "\<forall>i < length chunks.
           if Completed cp (int i) then cp_Embeddings (rs_cp st') ! i = cp_Embeddings cp ! i
           else Embed (Content (chunks ! i)) = Inr (cp_Embeddings (rs_cp st') ! i)"
      proof (intro allI impI)
        fix i assume i: "i < length chunks"
        show "if Completed cp (int i) then cp_Embeddings (rs_cp st') ! i = cp_Embeddings cp ! i
           else Embed (Content (chunks ! i)) = Inr (cp_Embeddings (rs_cp st') ! i)"
        proof (cases "Completed cp (int i)")
          case True
          then have "i \<notin> set ?todo" by (simp add: sets)
          then show ?thesis using True st'(6) by simp
        next
          case nc: False
          then have mem: "i \<in> set ?todo" using i by (simp add: sets)
          from failures_empty [OF True mem] obtain v where v: "Embed (Content (chunks ! i)) = Inr v" ..
          then show ?thesis using nc st'(7) mem by simp
        qed
      qed
      show ?thesis
        using True gen vecs sets distinct_toProcess [of chunks cp] st'(4,5) valid
        by (intro exI [of _ ?todo]) (simp add: embData_of_def)
    next
      case bad: False
      have "generate Embed chunks cp = Exit1 ?todo (failures Embed chunks ?todo) (rs_cp st')"
        using rem st'(1,2,3) bad by (simp add: generate_def Let_def)
      then show ?thesis
        using bad sets distinct_toProcess [of chunks cp]
        by (intro exI [of _ ?todo]) simp
    qed
  qed
qed


theorem resume_dispatches_missing_and_keeps_vectors_witness:
  "length (cp_Embeddings half_checkpoint) = length two_chunks
   \<and> generate fixed_provider two_chunks half_checkpoint =
       Finished [1]
         \<lparr>data_Chunks = two_chunks, data_Embeddings = [[1, 0], [0, 1]],
          data_ModelInfo = str ''openai-text-embedding-3-small'', data_Dimension = 2\<rparr>"
  using resume_dispatches_missing_and_keeps_vectors [of half_checkpoint two_chunks fixed_provider]
  by (simp add: half_checkpoint_def two_chunks_def fixed_provider_def generate_def toProcess_def
      Completed_def embed_task_def embData_of_def str_def)

section \<open>Chunking\<close>

subsection \<open>Strings and lines\<close>

lemma rune_len_pos: "0 < rune_len r"
  by (simp add: rune_len_def)

lemma byte_len_pos_iff: "0 < byte_len s \<longleftrightarrow> s \<noteq> []"
  by (cases s) (simp_all add: byte_len_def rune_len_pos)

lemma IsSpace_newline: "IsSpace 0x0A"
  by (simp add: IsSpace_def)

lemma TrimSpace_leading: "IsSpace c \<Longrightarrow> TrimSpace (c # s) = TrimSpace s"
  by (simp add: TrimSpace_def)

lemma TrimSpace_trailing:
  assumes c: "IsSpace c"
  shows "TrimSpace (s @ [c]) = TrimSpace s"
proof (cases "\<forall>x \<in> set s. IsSpace x")
  case True
  have 1: "dropWhile IsSpace s = []"
    using True by (simp only: dropWhile_eq_Nil_conv)
  have "\<forall>x \<in> set (s @ [c]). IsSpace x"
    using True c by simp
  then have 2: "dropWhile IsSpace (s @ [c]) = []"
    by (simp only: dropWhile_eq_Nil_conv)
  show ?thesis by (simp add: TrimSpace_def 1 2)
next
  case False
  then obtain x where "x \<in> set s" "\<not> IsSpace x" by blast
  then have "dropWhile IsSpace (s @ [c]) = dropWhile IsSpace s @ [c]"
    by (rule dropWhile_append1)
  then show ?thesis using c by (simp add: TrimSpace_def)
qed

lemma raw_lines_Nil_iff: "raw_lines s = [] \<longleftrightarrow> s = []"
  by (cases s) (simp_all split: list.splits)

lemma join_lines_Cons: "join_lines (l # ls) = (if ls = [] then l else l @ 0x0A # join_lines ls)"
  by (cases ls) simp_all

lemma join_raw_lines:
  "\<exists>t. (t = [] \<or> t = [0x0A]) \<and> s = join_lines (raw_lines s) @ t"
proof (induction s)
  case Nil
  then show ?case by simp
next
  case (Cons r rs)
  then obtain t where t: "t = [] \<or> t = [0x0A]" "rs = join_lines (raw_lines rs) @ t" by blast
  show ?case
  proof (cases "raw_lines rs")
    case Nil
    then have "rs = []" by (simp add: raw_lines_Nil_iff)
    then show ?thesis by simp
  next
    case (Cons l ls)
    show ?thesis
    proof (cases "r = 0x0A")
      case True
      then have "r # rs = join_lines (raw_lines (r # rs)) @ t"
        using t(2) Cons by (simp add: join_lines_Cons)
      then show ?thesis using t(1) by blast
    next
      case False
      then have "r # rs = join_lines (raw_lines (r # rs)) @ t"
        using t(2) Cons by (simp add: join_lines_Cons)
      then show ?thesis using t(1) by blast
    qed
  qed
qed

lemma TrimSpace_join_raw_lines: "TrimSpace (join_lines (raw_lines s)) = TrimSpace s"
proof -
  from join_raw_lines [of s] obtain t where
    "t = [] \<or> t = [0x0A]" "s = join_lines (raw_lines s) @ t" by blast
  then show ?thesis
    using TrimSpace_trailing [OF IsSpace_newline, of "join_lines (raw_lines s)"] by auto
qed

lemma scan_step_plain:
  "\<not> HasPrefix line (str ''#'') \<Longrightarrow>
   scan_step path st line =
     st\<lparr>currentContent := append_line (currentContent st) line,
        lineOffset := lineOffset st + int (byte_len line) + 1\<rparr>"
  by (simp add: scan_step_def append_line_def)

lemma foldl_scan_step_plain:
  "\<forall>l \<in> set ls. \<not> HasPrefix l (str ''#'') \<Longrightarrow>
   foldl (scan_step path) st ls =
     st\<lparr>currentContent := foldl append_line (currentContent st) ls,
        lineOffset := lineOffset st + offset_of ls\<rparr>"
proof (induction ls arbitrary: st)
  case Nil
  then show ?case by (simp add: offset_of_def)
next
  case (Cons l ls)
  then show ?case by (simp add: scan_step_plain offset_of_def algebra_simps)
qed

lemma join_lines_concat: "join_lines (l # ls) = l @ concat (map (\<lambda>l. 0x0A # l) ls)"
  by (induction ls arbitrary: l) (simp_all add: join_lines_Cons)

lemma foldl_append_line_nonempty:
  "acc \<noteq> [] \<Longrightarrow> foldl append_line acc ls = acc @ concat (map (\<lambda>l. 0x0A # l) ls)"
  by (induction ls arbitrary: acc) (simp_all add: append_line_def byte_len_pos_iff)

lemma foldl_append_line_empty:
  "foldl append_line [] ls = join_lines (dropWhile (\<lambda>l. l = []) ls)"
proof (induction ls)
  case Nil
  then show ?case by simp
next
  case (Cons l ls)
  show ?case
  proof (cases "l = []")
    case True
    then show ?thesis using Cons by (simp add: append_line_def byte_len_def)
  next
    case False
    have "foldl append_line [] (l # ls) = foldl append_line l ls"
      by (simp add: append_line_def byte_len_def)
    then show ?thesis
      using False by (simp add: foldl_append_line_nonempty join_lines_concat)
  qed
qed

lemma TrimSpace_join_dropWhile:
  "TrimSpace (join_lines (dropWhile (\<lambda>l. l = []) ls)) = TrimSpace (join_lines ls)"
proof (induction ls)
  case Nil
  then show ?case by simp
next
  case (Cons l ls)
  show ?case
  proof (cases "l = []")
    case True
    then show ?thesis
      using Cons TrimSpace_leading [OF IsSpace_newline, of "join_lines ls"]
      by (cases "ls = []") (simp_all add: join_lines_Cons)
  next
    case False
    then show ?thesis by simp
  qed
qed

lemma foldl_append_line_Nil_iff:
  "foldl append_line [] ls = [] \<longleftrightarrow> (\<forall>l \<in> set ls. l = [])"
proof (induction ls)
  case Nil
  then show ?case by simp
next
  case (Cons l ls)
  show ?case
  proof (cases "l = []")
    case True
    then show ?thesis using Cons by (simp add: append_line_def byte_len_def)
  next
    case False
    have "foldl append_line [] (l # ls) = foldl append_line l ls"
      by (simp add: append_line_def byte_len_def)
    then show ?thesis
      using False by (simp add: foldl_append_line_nonempty)
  qed
qed

lemma ChunkDocument_no_heading:
  assumes "\<forall>l \<in> set (scanner_lines content). \<not> HasPrefix l (str ''#'')"
  shows "ChunkDocument path content =
     [\<lparr>Path = path,
       Content = (if \<forall>l \<in> set (scanner_lines content). l = [] then TrimSpace content
                  else TrimSpace (join_lines (scanner_lines content))),
       Heading = [], Offset = 0\<rparr>]"
proof -
  let ?ls = "scanner_lines content"
  let ?B = "foldl append_line [] ?ls"
  have fold: "foldl (scan_step path) chunker_start ?ls =
      chunker_start\<lparr>currentContent := ?B, lineOffset := offset_of ?ls\<rparr>"
    using foldl_scan_step_plain [OF assms, of path chunker_start]
    by (simp add: chunker_start_def)
  show ?thesis
  proof (cases "\<forall>l \<in> set ?ls. l = []")
    case True
    then have "?B = []" by (simp only: foldl_append_line_Nil_iff)
    then show ?thesis
      using True fold
      by (simp add: ChunkDocument_def flushChunk_def chunker_start_def byte_len_def)
  next
    case False
    then have ne: "?B \<noteq> []" by (simp only: foldl_append_line_Nil_iff) simp
    have "TrimSpace ?B = TrimSpace (join_lines ?ls)"
      by (simp only: foldl_append_line_empty TrimSpace_join_dropWhile)
    then have "ChunkDocument path content =
        [\<lparr>Path = path, Content = TrimSpace (join_lines ?ls), Heading = [], Offset = 0\<rparr>]"
      using fold ne
      by (simp add: ChunkDocument_def flushChunk_def chunker_start_def byte_len_pos_iff)
    then show ?thesis
      using False by (simp only: if_False)
  qed
qed

lemma set_raw_lines: "l \<in> set (raw_lines s) \<Longrightarrow> set l \<subseteq> set s"
proof (induction s arbitrary: l)
  case Nil
  then show ?case by simp
next
  case (Cons r rs)
  show ?case
  proof (cases "r = 0x0A")
    case True
    then show ?thesis using Cons by auto
  next
    case False
    show ?thesis
    proof (cases "raw_lines rs")
      case Nil
      then show ?thesis using Cons.prems False by simp
    next
      case (Cons l' ls)
      then have "l = r # l' \<or> l \<in> set ls" using Cons.prems False by simp
      moreover have "set l' \<subseteq> set rs" using Cons.IH [of l'] Cons by simp
      moreover have "l \<in> set ls \<Longrightarrow> set l \<subseteq> set rs" using Cons.IH [of l] Cons by simp
      ultimately show ?thesis by auto
    qed
  qed
qed

lemma dropCR_id:
  assumes "0x0D \<notin> set l"
  shows "dropCR l = l"
proof (cases "l = []")
  case True
  then show ?thesis by (simp add: dropCR_def)
next
  case False
  then have "last l \<in> set l" by (rule last_in_set)
  then have "last l \<noteq> 0x0D" using assms by metis
  then show ?thesis by (simp add: dropCR_def)
qed

lemma scanner_lines_raw:
  assumes "\<forall>l \<in> set (raw_lines content). byte_len l < MaxScanTokenSize"
    and "0x0D \<notin> set content"
  shows "scanner_lines content = raw_lines content"
proof -
  have 1: "takeWhile (\<lambda>l. byte_len l < MaxScanTokenSize) (raw_lines content) = raw_lines content"
    using assms(1) by (simp only: takeWhile_eq_all_conv)
  have "map dropCR (raw_lines content) = raw_lines content"
  proof (rule map_idI)
    fix l assume "l \<in> set (raw_lines content)"
    then have "0x0D \<notin> set l" using set_raw_lines [of l content] assms(2) by blast
    then show "dropCR l = l" by (rule dropCR_id)
  qed
  then show ?thesis by (simp only: scanner_lines_def 1)
qed


subsection \<open>Documents without a heading\<close>

text \<open>
  C10 as stated does not hold: the scanner drops the carriage return of a line that ends in
  \<open>\r\n\<close>, so the single chunk of the document \<open>a\r\nb\<close> has the content
  \<open>a\nb\<close>, which is not the trimmed document.
\<close>

theorem ChunkDocument_drops_carriage_return:
  "ChunkDocument (str ''a.md'') (str ''a'' @ [0x0D, 0x0A] @ str ''b'') =
     [\<lparr>Path = str ''a.md'', Content = str ''a'' @ [0x0A] @ str ''b'', Heading = [], Offset = 0\<rparr>]
   \<and> TrimSpace (str ''a'' @ [0x0D, 0x0A] @ str ''b'') = str ''a'' @ [0x0D, 0x0A] @ str ''b''"
  by (simp add: ChunkDocument_def scanner_lines_def str_def dropCR_def byte_len_def rune_len_def
      MaxScanTokenSize_def scan_step_def flushChunk_def HasPrefix_def TrimSpace_def IsSpace_def)

text \<open>
  C10, amended. \<open>ChunkDocument\<close> never returns an empty sequence. When no line that the
  scanner reads is a heading, the result is exactly one chunk with empty heading and
  offset 0, whose content is the trimmed join of the lines read (the trimmed document when
  all of them are empty). When moreover the document has no carriage return and no line of
  \<open>MaxScanTokenSize\<close> bytes or more, that content is the whole trimmed document.
\<close>

theorem ChunkDocument_at_least_one_chunk:
  "ChunkDocument path content \<noteq> []
   \<and> ((\<forall>l \<in> set (scanner_lines content). \<not> HasPrefix l (str ''#'')) \<longrightarrow>
        ChunkDocument path content =
          [\<lparr>Path = path,
            Content = (if \<forall>l \<in> set (scanner_lines content). l = [] then TrimSpace content
                       else TrimSpace (join_lines (scanner_lines content))),
            Heading = [], Offset = 0\<rparr>])
   \<and> ((\<forall>l \<in> set (raw_lines content). \<not> HasPrefix l (str ''#'') \<and> byte_len l < MaxScanTokenSize)
        \<and> 0x0D \<notin> set content \<longrightarrow>
        ChunkDocument path content =
          [\<lparr>Path = path, Content = TrimSpace content, Heading = [], Offset = 0\<rparr>])"
proof (intro conjI impI)
  show "ChunkDocument path content \<noteq> []"
    by (simp add: ChunkDocument_def Let_def)
next
  assume "\<forall>l \<in> set (scanner_lines content). \<not> HasPrefix l (str ''#'')"
  then show "ChunkDocument path content =
          [\<lparr>Path = path,
            Content = (if \<forall>l \<in> set (scanner_lines content). l = [] then TrimSpace content
                       else TrimSpace (join_lines (scanner_lines content))),
            Heading = [], Offset = 0\<rparr>]"
    by (rule ChunkDocument_no_heading)
next
  assume a: "(\<forall>l \<in> set (raw_lines content). \<not> HasPrefix l (str ''#'') \<and> byte_len l < MaxScanTokenSize)
        \<and> 0x0D \<notin> set content"
  then have eq: "scanner_lines content = raw_lines content"
    using scanner_lines_raw [of content] by blast
  then have "\<forall>l \<in> set (scanner_lines content). \<not> HasPrefix l (str ''#'')"
    using a by simp
  from ChunkDocument_no_heading [OF this, of path]
  show "ChunkDocument path content =
          [\<lparr>Path = path, Content = TrimSpace content, Heading = [], Offset = 0\<rparr>]"
    by (simp add: eq TrimSpace_join_raw_lines)
qed

theorem ChunkDocument_at_least_one_chunk_witness:
  "ChunkDocument (str ''a.md'') (str ''line one\<newline>line two\<newline>'') =
     [\<lparr>Path = str ''a.md'', Content = str ''line one\<newline>line two'', Heading = [], Offset = 0\<rparr>]"
  using ChunkDocument_at_least_one_chunk [of "str ''a.md''" "str ''line one\<newline>line two\<newline>''"]
  by (simp add: str_def HasPrefix_def byte_len_def rune_len_def MaxScanTokenSize_def TrimSpace_def IsSpace_def)


subsection \<open>Headings\<close>

lemma flushChunk_nonempty:
  "currentContent st \<noteq> [] \<Longrightarrow>
   flushChunk path st =
     st\<lparr>doc_chunks := doc_chunks st @
          [\<lparr>Path = path, Content = TrimSpace (currentContent st),
            Heading = currentHeading st, Offset = currentOffset st\<rparr>]\<rparr>"
  by (simp add: flushChunk_def byte_len_pos_iff)

lemma doc_chunks_flushChunk: "set (doc_chunks st) \<subseteq> set (doc_chunks (flushChunk path st))"
  by (auto simp: flushChunk_def)

lemma doc_chunks_scan_step: "set (doc_chunks st) \<subseteq> set (doc_chunks (scan_step path st line))"
  using doc_chunks_flushChunk [of st path] by (simp add: scan_step_def Let_def)

lemma doc_chunks_foldl: "set (doc_chunks st) \<subseteq> set (doc_chunks (foldl (scan_step path) st ls))"
proof (induction ls arbitrary: st)
  case Nil
  then show ?case by simp
next
  case (Cons l ls)
  then show ?case using doc_chunks_scan_step [of st path l] by fastforce
qed

lemma lineOffset_scan_step:
  "lineOffset (scan_step path st line) = lineOffset st + int (byte_len line) + 1"
  by (simp add: scan_step_def Let_def)

lemma lineOffset_foldl:
  "lineOffset (foldl (scan_step path) st ls) = lineOffset st + offset_of ls"
  by (induction ls arbitrary: st) (simp_all add: offset_of_def lineOffset_scan_step)

lemma scan_step_heading:
  assumes "HasPrefix h (str ''#'')"
  shows "currentHeading (scan_step path st h) = TrimSpace (TrimLeft h (str ''#''))"
    and "currentContent (scan_step path st h) = []"
    and "currentOffset (scan_step path st h) = lineOffset st"
    and "doc_chunks (scan_step path st h) = doc_chunks (flushChunk path st)"
  using assms by (simp_all add: scan_step_def Let_def)

lemma ChunkDocument_member:
  assumes "c \<in> set (doc_chunks (flushChunk path (foldl (scan_step path) chunker_start
                (scanner_lines content))))"
  shows "c \<in> set (ChunkDocument path content)"
proof -
  let ?final = "flushChunk path (foldl (scan_step path) chunker_start (scanner_lines content))"
  have "doc_chunks ?final \<noteq> []" using assms by auto
  then have "ChunkDocument path content = doc_chunks ?final"
    by (simp add: ChunkDocument_def chunker_start_def Let_def)
  then show ?thesis using assms by simp
qed

lemma heading_with_text_gives_chunk:
  assumes lines: "scanner_lines content = pre @ h # body @ rest"
    and h: "HasPrefix h (str ''#'')"
    and body: "\<forall>l \<in> set body. \<not> HasPrefix l (str ''#'')"
    and nonblank: "\<exists>l \<in> set body. l \<noteq> []"
    and rest: "rest = [] \<or> HasPrefix (hd rest) (str ''#'')"
  shows "\<lparr>Path = path, Content = TrimSpace (join_lines body),
          Heading = TrimSpace (TrimLeft h (str ''#'')), Offset = offset_of pre\<rparr>
         \<in> set (ChunkDocument path content)"
proof -
  let ?step = "scan_step path"
  let ?C = "\<lparr>Path = path, Content = TrimSpace (join_lines body),
          Heading = TrimSpace (TrimLeft h (str ''#'')), Offset = offset_of pre\<rparr>"
  define st1 where "st1 = foldl ?step chunker_start pre"
  define st2 where "st2 = ?step st1 h"
  define st3 where "st3 = foldl ?step st2 body"
  have off1: "lineOffset st1 = offset_of pre"
    by (simp add: st1_def lineOffset_foldl chunker_start_def)
  have st2: "currentHeading st2 = TrimSpace (TrimLeft h (str ''#''))"
    "currentContent st2 = []" "currentOffset st2 = offset_of pre"
    using scan_step_heading [OF h, of path st1] off1 by (simp_all add: st2_def)
  have st3_eq: "st3 = st2\<lparr>currentContent := foldl append_line [] body,
        lineOffset := lineOffset st2 + offset_of body\<rparr>"
    using foldl_scan_step_plain [OF body, of path st2] st2(2) by (simp add: st3_def)
  have ne: "foldl append_line [] body \<noteq> []"
    using nonblank by (simp only: foldl_append_line_Nil_iff) simp
  have trim: "TrimSpace (foldl append_line [] body) = TrimSpace (join_lines body)"
    by (simp only: foldl_append_line_empty TrimSpace_join_dropWhile)
  have flush3: "doc_chunks (flushChunk path st3) = doc_chunks st3 @ [?C]"
    using ne trim st2 by (simp add: flushChunk_nonempty st3_eq)
  have all: "foldl ?step chunker_start (scanner_lines content) = foldl ?step st3 rest"
    by (simp add: lines st1_def st2_def st3_def)
  have "?C \<in> set (doc_chunks (flushChunk path (foldl ?step st3 rest)))"
  proof (cases rest)
    case Nil
    then show ?thesis using flush3 by simp
  next
    case (Cons h' rest')
    then have h': "HasPrefix h' (str ''#'')" using rest by simp
    have "?C \<in> set (doc_chunks (?step st3 h'))"
      using scan_step_heading(4) [OF h', of path st3] flush3 by simp
    then have "?C \<in> set (doc_chunks (foldl ?step (?step st3 h') rest'))"
      using doc_chunks_foldl [of "?step st3 h'" path rest'] by blast
    then show ?thesis
      using doc_chunks_flushChunk [of "foldl ?step (?step st3 h') rest'" path] Cons by auto
  qed
  then show ?thesis
    using all ChunkDocument_member [of ?C path content] by simp
qed

lemma flushChunk_section:
  assumes "currentContent st = foldl append_line [] cb"
  shows "doc_chunks (flushChunk path st) =
     doc_chunks st @ section_chunk path (currentHeading st) (currentOffset st) cb"
proof (cases "\<exists>l \<in> set cb. l \<noteq> []")
  case True
  then have ne: "currentContent st \<noteq> []"
    using assms foldl_append_line_Nil_iff [of cb] by auto
  have "TrimSpace (currentContent st) = TrimSpace (join_lines cb)"
    unfolding assms by (simp only: foldl_append_line_empty TrimSpace_join_dropWhile)
  then show ?thesis
    using True ne by (simp add: flushChunk_nonempty section_chunk_def)
next
  case False
  then have "currentContent st = []"
    using assms foldl_append_line_Nil_iff [of cb] by auto
  then show ?thesis
    using False by (simp add: flushChunk_def section_chunk_def byte_len_def)
qed

lemma loop_chunks:
  assumes "currentContent st = foldl append_line [] cb"
  shows "doc_chunks (flushChunk path (foldl (scan_step path) st ls)) =
     doc_chunks st @
       (case sections ls of
          (body, rest) \<Rightarrow>
            section_chunk path (currentHeading st) (currentOffset st) (cb @ body)
              @ headed_chunks path (lineOffset st + offset_of body) rest)"
  using assms
proof (induction ls arbitrary: st cb)
  case Nil
  then show ?case using flushChunk_section [of st cb path] by (simp add: offset_of_def)
next
  case (Cons l ls)
  obtain body rest where sec: "sections ls = (body, rest)" by (cases "sections ls")
  show ?case
  proof (cases "HasPrefix l (str ''#'')")
    case True
    let ?st = "scan_step path st l"
    have st': "currentHeading ?st = TrimSpace (TrimLeft l (str ''#''))"
      "currentContent ?st = foldl append_line [] []"
      "currentOffset ?st = lineOffset st"
      "doc_chunks ?st = doc_chunks (flushChunk path st)"
      using scan_step_heading [OF True, of path st] by simp_all
    have off: "lineOffset ?st = lineOffset st + int (byte_len l) + 1"
      by (rule lineOffset_scan_step)
    have "doc_chunks (flushChunk path (foldl (scan_step path) ?st ls)) =
        doc_chunks ?st @ section_chunk path (currentHeading ?st) (currentOffset ?st) ([] @ body)
          @ headed_chunks path (lineOffset ?st + offset_of body) rest"
      using Cons.IH [OF st'(2)] sec by simp
    then show ?thesis
      using True sec st' off flushChunk_section [OF Cons.prems, of path]
      by (simp add: offset_of_def algebra_simps)
  next
    case False
    let ?st = "scan_step path st l"
    have eq: "?st = st\<lparr>currentContent := append_line (currentContent st) l,
        lineOffset := lineOffset st + int (byte_len l) + 1\<rparr>"
      using False by (rule scan_step_plain)
    have c: "currentContent ?st = foldl append_line [] (cb @ [l])"
      using Cons.prems by (simp add: eq)
    have "doc_chunks (flushChunk path (foldl (scan_step path) ?st ls)) =
        doc_chunks ?st @ section_chunk path (currentHeading ?st) (currentOffset ?st) ((cb @ [l]) @ body)
          @ headed_chunks path (lineOffset ?st + offset_of body) rest"
      using Cons.IH [OF c] sec by simp
    then show ?thesis
      using False sec by (simp add: eq offset_of_def algebra_simps)
  qed
qed

lemma ChunkDocument_expected:
  "ChunkDocument path content =
     (if expected_chunks path (scanner_lines content) = []
      then [\<lparr>Path = path, Content = TrimSpace content, Heading = [], Offset = 0\<rparr>]
      else expected_chunks path (scanner_lines content))"
proof -
  have "currentContent chunker_start = foldl append_line [] []"
    by (simp add: chunker_start_def)
  from loop_chunks [OF this, of path "scanner_lines content"]
  have "doc_chunks (flushChunk path (foldl (scan_step path) chunker_start (scanner_lines content)))
      = expected_chunks path (scanner_lines content)"
    by (simp add: expected_chunks_def chunker_start_def split: prod.splits)
  then show ?thesis
    by (simp add: ChunkDocument_def chunker_start_def Let_def)
qed

lemma raw_lines_Cons:
  "raw_lines s = l # ls \<Longrightarrow>
   (if ls = [] then s = l \<or> s = l @ [0x0A]
    else \<exists>s'. s = l @ 0x0A # s' \<and> raw_lines s' = ls)"
proof (induction s arbitrary: l ls)
  case Nil
  then show ?case by simp
next
  case (Cons r rs)
  show ?case
  proof (cases "r = 0x0A")
    case True
    then have l: "l = []" and ls: "ls = raw_lines rs" using Cons.prems by simp_all
    show ?thesis
    proof (cases "ls = []")
      case True
      then have "rs = []" using ls by (simp add: raw_lines_Nil_iff)
      then show ?thesis using True l \<open>r = 0x0A\<close> by simp
    next
      case False
      then show ?thesis using l ls \<open>r = 0x0A\<close> by simp
    qed
  next
    case False
    show ?thesis
    proof (cases "raw_lines rs")
      case Nil
      then have "rs = []" by (simp add: raw_lines_Nil_iff)
      then show ?thesis using Cons.prems False by auto
    next
      case inner: (Cons l' ls')
      then have l: "l = r # l'" and ls: "ls = ls'" using Cons.prems False by simp_all
      from Cons.IH [OF inner] show ?thesis
        using l ls by (cases "ls' = []") auto
    qed
  qed
qed

lemma raw_lines_prefix:
  "raw_lines s = pre @ h # rest \<Longrightarrow> \<exists>suffix. s = unlines pre @ h @ suffix"
proof (induction pre arbitrary: s)
  case Nil
  then have "raw_lines s = h # rest" by simp
  from raw_lines_Cons [OF this] show ?case
    by (cases "rest = []") (auto simp: unlines_def)
next
  case (Cons p pre)
  then have "raw_lines s = p # (pre @ h # rest)" by simp
  from raw_lines_Cons [OF this] obtain s' where
    s: "s = p @ 0x0A # s'" and r: "raw_lines s' = pre @ h # rest" by auto
  from Cons.IH [OF r] obtain suffix where "s' = unlines pre @ h @ suffix" ..
  then have "s = unlines (p # pre) @ h @ suffix" using s by (simp add: unlines_def)
  then show ?case ..
qed

lemma byte_len_append: "byte_len (a @ b) = byte_len a + byte_len b"
  by (simp add: byte_len_def)

lemma byte_len_newline: "byte_len (0x0A # s) = 1 + byte_len s"
  by (simp add: byte_len_def rune_len_def)

lemma byte_len_unlines: "int (byte_len (unlines ls)) = offset_of ls"
proof (induction ls)
  case Nil
  then show ?case by (simp add: unlines_def offset_of_def byte_len_def)
next
  case (Cons l ls)
  then show ?case
    by (simp add: unlines_def offset_of_def byte_len_append byte_len_newline)
qed

lemma heading_byte_position:
  assumes "0x0D \<notin> set content" and "scanner_lines content = pre @ h # rest"
  shows "\<exists>suffix. content = unlines pre @ h @ suffix \<and> int (byte_len (unlines pre)) = offset_of pre"
proof -
  let ?P = "\<lambda>l. byte_len l < MaxScanTokenSize"
  have "map dropCR (takeWhile ?P (raw_lines content)) = takeWhile ?P (raw_lines content)"
  proof (rule map_idI)
    fix l assume "l \<in> set (takeWhile ?P (raw_lines content))"
    then have "l \<in> set (raw_lines content)" by (rule set_takeWhileD [THEN conjunct1])
    then have "0x0D \<notin> set l" using set_raw_lines [of l content] assms(1) by blast
    then show "dropCR l = l" by (rule dropCR_id)
  qed
  then have "takeWhile ?P (raw_lines content) = pre @ h # rest"
    using assms(2) by (simp add: scanner_lines_def)
  then have "raw_lines content = pre @ h # (rest @ dropWhile ?P (raw_lines content))"
    using takeWhile_dropWhile_id [of ?P "raw_lines content"] by simp
  from raw_lines_prefix [OF this] obtain suffix where "content = unlines pre @ h @ suffix" ..
  then show ?thesis using byte_len_unlines [of pre] by blast
qed

text \<open>
  C8 as stated does not hold: \<open>flushChunk\<close> appends a chunk only when the content
  collected for a heading is not empty, so a heading line directly followed by another
  heading line leaves no chunk.
\<close>

theorem heading_without_text_gives_no_chunk:
  "ChunkDocument (str ''a.md'') (str ''# A\<newline># B\<newline>bar'') =
     [\<lparr>Path = str ''a.md'', Content = str ''bar'', Heading = str ''B'', Offset = 4\<rparr>]"
  by (simp add: ChunkDocument_def scanner_lines_def str_def dropCR_def byte_len_def rune_len_def
      MaxScanTokenSize_def scan_step_def flushChunk_def HasPrefix_def TrimSpace_def TrimLeft_def
      IsSpace_def)

text \<open>
  C8, amended. The output of \<open>ChunkDocument\<close> is, in the order of the document, one
  chunk for the lines before the first heading line (empty heading, offset 0) and one chunk
  for every heading line that the scanner reads, where a section, the lines up to the next
  heading line or the end of the lines read, gives its chunk only when one of its lines is
  not empty: a heading line whose section has no such line leaves no chunk. When this
  leaves no chunk at all, the output is the single chunk of the whole document. The chunk
  of a heading line \<open>h\<close> has as heading \<open>h\<close> without its leading \<open>#\<close> characters
  and surrounding white space, as content the trimmed section, and as offset the sum, over
  the lines \<open>pre\<close> read before \<open>h\<close>, of the length of the line as the scanner returns
  it (without a final carriage return) plus one; in a document without a carriage return
  that is the byte position of \<open>h\<close>. The document \<open># A\nfoo\n\n# B\nbar\n\<close> yields
  exactly the two chunks \<open>A\<close>/\<open>foo\<close> and \<open>B\<close>/\<open>bar\<close>.
\<close>

theorem heading_chunks:
  "ChunkDocument path content =
     (if expected_chunks path (scanner_lines content) = []
      then [\<lparr>Path = path, Content = TrimSpace content, Heading = [], Offset = 0\<rparr>]
      else expected_chunks path (scanner_lines content))
   \<and> (scanner_lines content = pre @ h # body @ rest
        \<and> HasPrefix h (str ''#'')
        \<and> (\<forall>l \<in> set body. \<not> HasPrefix l (str ''#''))
        \<and> (\<exists>l \<in> set body. l \<noteq> [])
        \<and> (rest = [] \<or> HasPrefix (hd rest) (str ''#''))
      \<longrightarrow> \<lparr>Path = path, Content = TrimSpace (join_lines body),
            Heading = TrimSpace (TrimLeft h (str ''#'')), Offset = offset_of pre\<rparr>
           \<in> set (ChunkDocument path content))
   \<and> (0x0D \<notin> set content \<and> scanner_lines content = pre @ h # body @ rest
      \<longrightarrow> (\<exists>suffix. content = unlines pre @ h @ suffix)
          \<and> offset_of pre = int (byte_len (unlines pre)))
   \<and> ChunkDocument path (str ''# A\<newline>foo\<newline>\<newline># B\<newline>bar\<newline>'') =
       [\<lparr>Path = path, Content = str ''foo'', Heading = str ''A'', Offset = 0\<rparr>,
        \<lparr>Path = path, Content = str ''bar'', Heading = str ''B'', Offset = 9\<rparr>]"
proof (intro conjI impI)
  show "ChunkDocument path content =
     (if expected_chunks path (scanner_lines content) = []
      then [\<lparr>Path = path, Content = TrimSpace content, Heading = [], Offset = 0\<rparr>]
      else expected_chunks path (scanner_lines content))"
    by (rule ChunkDocument_expected)
next
  assume "scanner_lines content = pre @ h # body @ rest
      \<and> HasPrefix h (str ''#'')
      \<and> (\<forall>l \<in> set body. \<not> HasPrefix l (str ''#''))
      \<and> (\<exists>l \<in> set body. l \<noteq> [])
      \<and> (rest = [] \<or> HasPrefix (hd rest) (str ''#''))"
  then show "\<lparr>Path = path, Content = TrimSpace (join_lines body),
          Heading = TrimSpace (TrimLeft h (str ''#'')), Offset = offset_of pre\<rparr>
         \<in> set (ChunkDocument path content)"
    using heading_with_text_gives_chunk [of content pre h body rest path] by blast
next
  assume a: "0x0D \<notin> set content \<and> scanner_lines content = pre @ h # body @ rest"
  from heading_byte_position [of content pre h "body @ rest"] a
  obtain suffix where s: "content = unlines pre @ h @ suffix"
    "int (byte_len (unlines pre)) = offset_of pre" by blast
  from s(1) show "\<exists>suffix. content = unlines pre @ h @ suffix" ..
  from s(2) show "offset_of pre = int (byte_len (unlines pre))" by simp
next
  show "ChunkDocument path (str ''# A\<newline>foo\<newline>\<newline># B\<newline>bar\<newline>'') =
       [\<lparr>Path = path, Content = str ''foo'', Heading = str ''A'', Offset = 0\<rparr>,
        \<lparr>Path = path, Content = str ''bar'', Heading = str ''B'', Offset = 9\<rparr>]"
    by (simp add: ChunkDocument_def scanner_lines_def str_def dropCR_def byte_len_def rune_len_def
        MaxScanTokenSize_def scan_step_def flushChunk_def HasPrefix_def TrimSpace_def TrimLeft_def
        IsSpace_def)
qed

theorem heading_chunks_witness:
  "\<lparr>Path = str ''a.md'', Content = str ''bar'', Heading = str ''B'', Offset = 9\<rparr>
     \<in> set (ChunkDocument (str ''a.md'') (str ''# A\<newline>foo\<newline>\<newline># B\<newline>bar\<newline>''))
   \<and> expected_chunks (str ''a.md'') (scanner_lines (str ''# A\<newline># B\<newline>bar'')) =
       [\<lparr>Path = str ''a.md'', Content = str ''bar'', Heading = str ''B'', Offset = 4\<rparr>]"
  using heading_chunks [where content = "str ''# A\<newline>foo\<newline>\<newline># B\<newline>bar\<newline>''"
      and pre = "[str ''# A'', str ''foo'', []]" and h = "str ''# B''" and body = "[str ''bar'']"
      and rest = "[]" and path = "str ''a.md''"]
  by (simp add: scanner_lines_def str_def dropCR_def byte_len_def rune_len_def
      MaxScanTokenSize_def HasPrefix_def TrimSpace_def TrimLeft_def IsSpace_def offset_of_def
      expected_chunks_def section_chunk_def)

end
